theory Spec2Isabelle
  imports Main
begin

unbundle bit_operations_syntax

section \<open>Python values and exceptions\<close>

text \<open>
  Python integers are unbounded and are modelled by \<open>int\<close>; the bitwise operators of Python
  on (possibly negative) integers are the two's-complement operations of \<open>int\<close>.
  Every exception that the modelled code can raise is a value of \<open>error\<close>, and a function
  that can raise returns \<open>error + 'a\<close> with \<open>Inl\<close> for the exception.
\<close>

datatype error =
    SyntaxError
  | KeyError
  | ValueError
  | AssertionError
  | AttributeError
  | IndexError
  | OtherException

text \<open>\<open>x << n\<close> and \<open>x >> n\<close> raise ValueError on a negative shift count.\<close>

definition py_lshift :: "int \<Rightarrow> int \<Rightarrow> error + int" where
  "py_lshift x n = (if n < 0 then Inl ValueError else Inr (push_bit (nat n) x))"

definition py_rshift :: "int \<Rightarrow> int \<Rightarrow> error + int" where
  "py_rshift x n = (if n < 0 then Inl ValueError else Inr (drop_bit (nat n) x))"

section \<open>bitfield.py\<close>

text \<open>The attribute \<open>mask\<close> is named \<open>mask_bf\<close> here.\<close>

record BitField =
  from_bit :: int
  to_bit :: int
  width :: int
  mask_bf :: int
  shifted_mask :: int
  mask_inverse :: int

text \<open>
  The loop of the constructor, \<open>for i in range(from_bit, to_bit + 1): mask = (mask << 1) + 1\<close>,
  starting from \<open>mask = 0\<close>.
\<close>

definition mask_loop :: "int \<Rightarrow> int \<Rightarrow> int" where
  "mask_loop f t = foldl (\<lambda>m i. push_bit 1 m + 1) 0 [f..t]"

definition BitField_init :: "int \<Rightarrow> int \<Rightarrow> error + BitField" where
  "BitField_init f t =
     (let w = t - f + 1;
          m = mask_loop f t
      in case py_lshift m f of
           Inl e \<Rightarrow> Inl e
         | Inr sm \<Rightarrow>
             Inr \<lparr>from_bit = f, to_bit = t, width = w, mask_bf = m,
                  shifted_mask = sm, mask_inverse = NOT sm\<rparr>)"

text \<open>
  \<open>insert\<close>: \<open>(shifted_mask & (field_val << from_bit)) | word & mask_inverse\<close>;
  \<open>&\<close> binds tighter than \<open>|\<close>.
\<close>

definition insert_bf :: "BitField \<Rightarrow> int \<Rightarrow> int \<Rightarrow> error + int" where
  "insert_bf bf field_val word =
     (case py_lshift field_val (from_bit bf) of
        Inl e \<Rightarrow> Inl e
      | Inr sh \<Rightarrow> Inr ((shifted_mask bf AND sh) OR (word AND mask_inverse bf)))"

definition extract_bf :: "BitField \<Rightarrow> int \<Rightarrow> error + int" where
  "extract_bf bf word = py_rshift (shifted_mask bf AND word) (from_bit bf)"

definition sign_extend :: "int \<Rightarrow> int \<Rightarrow> error + int" where
  "sign_extend field w =
     (if \<not> (w > 1) then Inl AssertionError
      else case py_lshift 1 (w + 1) of
        Inl e \<Rightarrow> Inl e
      | Inr lim \<Rightarrow>
         if \<not> (field \<ge> 0 \<and> field < lim) then Inl AssertionError
         else case py_lshift 1 (w - 1) of
           Inl e \<Rightarrow> Inl e
         | Inr sign_bit \<Rightarrow>
             (let msk = sign_bit - 1
              in if (field AND sign_bit) \<noteq> 0
                 then Inr ((field AND msk) - sign_bit)
                 else Inr field))"

definition extract_signed :: "BitField \<Rightarrow> int \<Rightarrow> error + int" where
  "extract_signed bf word =
     (case extract_bf bf word of
        Inl e \<Rightarrow> Inl e
      | Inr ex \<Rightarrow> sign_extend ex (width bf))"


section \<open>cpu.py\<close>

subsection \<open>Collaborators of the CPU\<close>

text \<open>
  Modelled from the spec: instr_format.py (Instruction, OpCode, CondFlag, decode),
  register.py (Register, ZeroRegister), alu.py (ALU) and memory.py (Memory) are not under src/.
  The spec fixes a closed opcode enumeration with at least ADD, further ALU operations and the
  three control opcodes LOAD, STORE and HALT; the further ALU operations are \<open>ALU_OP n\<close>.
  A condition flag set is a bit mask (a natural number). An instruction is the record of its
  six fields. A register holds one word; the zero register always reads 0 and ignores writes.
  The functions \<open>decode\<close>, \<open>ALU().exec\<close>, \<open>Memory.get\<close> and \<open>Memory.put\<close> are parameters
  of \<open>step\<close>; each may raise.
\<close>

datatype OpCode = HALT | LOAD | STORE | ADD | ALU_OP nat

type_synonym CondFlag = nat

record Instruction =
  op :: OpCode
  cond :: CondFlag
  reg_target :: int
  reg_src1 :: int
  reg_src2 :: int
  offset :: int

datatype Register = ZeroRegister | Register int

fun reg_get :: "Register \<Rightarrow> int" where
  "reg_get ZeroRegister = 0"
| "reg_get (Register v) = v"

fun reg_put :: "Register \<Rightarrow> int \<Rightarrow> Register" where
  "reg_put ZeroRegister v = ZeroRegister"
| "reg_put (Register old) v = Register v"

subsection \<open>The CPU\<close>

record 'm CPU =
  memory :: 'm
  registers :: "Register list"
  condition :: CondFlag
  halted :: bool

text \<open>
  \<open>CPU.__init__\<close>: sixteen registers, the first of them the zero register; \<open>self.pc\<close> is the
  object \<open>self.registers[15]\<close>, so the program counter is read and written at index 15 of
  the register list. The initial condition is \<open>CondFlag.ALWAYS\<close>, a parameter here.
\<close>

definition CPU_init :: "CondFlag \<Rightarrow> 'm \<Rightarrow> 'm CPU" where
  "CPU_init always m =
     \<lparr>memory = m, registers = ZeroRegister # replicate 15 (Register 0),
      condition = always, halted = False\<rparr>"

definition pc_get :: "'m CPU \<Rightarrow> int" where
  "pc_get cpu = reg_get (registers cpu ! 15)"

definition pc_put :: "'m CPU \<Rightarrow> int \<Rightarrow> 'm CPU" where
  "pc_put cpu v = cpu\<lparr>registers := (registers cpu)[15 := reg_put (registers cpu ! 15) v]\<rparr>"

text \<open>
  The shape that \<open>CPU.__init__\<close> gives the register list and that no method changes:
  sixteen registers, the zero register first and nowhere else.
\<close>

definition cpu_wf :: "'m CPU \<Rightarrow> bool" where
  "cpu_wf cpu \<longleftrightarrow>
     length (registers cpu) = 16 \<and> hd (registers cpu) = ZeroRegister \<and>
     ZeroRegister \<notin> set (tl (registers cpu))"

text \<open>
  The position that \<open>xs[i]\<close> reads: \<open>i\<close> itself, or \<open>len(xs) + i\<close> for a negative \<open>i\<close>;
  IndexError when that is not a position of the list.
\<close>

definition py_index :: "'a list \<Rightarrow> int \<Rightarrow> error + nat" where
  "py_index xs i =
     (if 0 \<le> i \<and> i < int (length xs) then Inr (nat i)
      else if - int (length xs) \<le> i \<and> i < 0 then Inr (nat (int (length xs) + i))
      else Inl IndexError)"

definition bind_e :: "error + 'a \<Rightarrow> ('a \<Rightarrow> error + 'b) \<Rightarrow> error + 'b" where
  "bind_e x f = (case x of Inl e \<Rightarrow> Inl e | Inr v \<Rightarrow> f v)"

text \<open>
  The operand fetch of \<open>step\<close>:
  \<open>regsrc1 = registers[reg_src1].get()\<close>, \<open>regsrc2 = registers[reg_src2].get()\<close>,
  \<open>regsrc2 = regsrc2 + offset\<close>. It runs on the state at fetch, before the program counter
  is advanced.
\<close>

definition read_operands :: "'m CPU \<Rightarrow> Instruction \<Rightarrow> error + int \<times> int" where
  "read_operands cpu instr =
     bind_e (py_index (registers cpu) (reg_src1 instr)) (\<lambda>i1.
     bind_e (py_index (registers cpu) (reg_src2 instr)) (\<lambda>i2.
       let regsrc1 = reg_get (registers cpu ! i1);
           regsrc2 = reg_get (registers cpu ! i2);
           regsrc2 = regsrc2 + offset instr
       in Inr (regsrc1, regsrc2)))"

definition reg_write :: "'m CPU \<Rightarrow> nat \<Rightarrow> int \<Rightarrow> 'm CPU" where
  "reg_write cpu i v = cpu\<lparr>registers := (registers cpu)[i := reg_put (registers cpu ! i) v]\<rparr>"

text \<open>
  The dispatch on the opcode that ends an executed step, on the CPU \<open>cpu2\<close> whose program
  counter and condition are already updated. In \<open>registers[t].put(memory.get(result))\<close> the
  register is looked up before the memory is read.
\<close>

definition write_back ::
  "('m \<Rightarrow> int \<Rightarrow> error + int) \<Rightarrow> ('m \<Rightarrow> int \<Rightarrow> int \<Rightarrow> error + 'm) \<Rightarrow>
   Instruction \<Rightarrow> 'm CPU \<Rightarrow> int \<Rightarrow> error + 'm CPU" where
  "write_back mem_get mem_put instr cpu2 result =
     (if op instr = LOAD then
        bind_e (py_index (registers cpu2) (reg_target instr)) (\<lambda>t.
        bind_e (mem_get (memory cpu2) result) (\<lambda>v.
          Inr (reg_write cpu2 t v)))
      else if op instr = STORE then
        bind_e (py_index (registers cpu2) (reg_target instr)) (\<lambda>t.
        bind_e (mem_put (memory cpu2) result (reg_get (registers cpu2 ! t))) (\<lambda>m'.
          Inr (cpu2\<lparr>memory := m'\<rparr>)))
      else if op instr = HALT then
        Inr (cpu2\<lparr>halted := True\<rparr>)
      else
        bind_e (py_index (registers cpu2) (reg_target instr)) (\<lambda>t.
          Inr (reg_write cpu2 t result)))"

text \<open>
  One step. The notification of the listeners (\<open>notify_all\<close>) does not change the CPU and is
  left out. An exception ends the step with \<open>Inl\<close>.
\<close>

definition step ::
  "(int \<Rightarrow> error + Instruction) \<Rightarrow> (OpCode \<Rightarrow> int \<Rightarrow> int \<Rightarrow> error + int \<times> CondFlag) \<Rightarrow>
   ('m \<Rightarrow> int \<Rightarrow> error + int) \<Rightarrow> ('m \<Rightarrow> int \<Rightarrow> int \<Rightarrow> error + 'm) \<Rightarrow>
   'm CPU \<Rightarrow> error + 'm CPU" where
  "step decode alu_exec mem_get mem_put cpu =
     bind_e (mem_get (memory cpu) (pc_get cpu)) (\<lambda>word.
     bind_e (decode word) (\<lambda>instr.
       if (condition cpu AND cond instr) \<noteq> 0 then
         bind_e (read_operands cpu instr) (\<lambda>(regsrc1, regsrc2).
           let cpu1 = pc_put cpu (pc_get cpu + 1)
           in bind_e (alu_exec (op instr) regsrc1 regsrc2) (\<lambda>(result, condition').
                write_back mem_get mem_put instr (cpu1\<lparr>condition := condition'\<rparr>) result))
       else Inr (pc_put cpu (pc_get cpu + 1))))"

subsection \<open>A machine to run steps on\<close>

text \<open>
  A memory that is a total map from addresses to words, a decoder that reads every word as
  the one instruction \<open>demo_instr\<close>, and an ALU that adds its operands and answers the
  flag set 4. \<open>demo_instr\<close> is \<open>ADD r1,r0,r15[3]\<close> under the condition mask 2.
\<close>

definition demo_get :: "(int \<Rightarrow> int) \<Rightarrow> int \<Rightarrow> error + int" where
  "demo_get m a = Inr (m a)"

definition demo_put :: "(int \<Rightarrow> int) \<Rightarrow> int \<Rightarrow> int \<Rightarrow> error + (int \<Rightarrow> int)" where
  "demo_put m a v = Inr (m(a := v))"

definition demo_instr :: Instruction where
  "demo_instr = \<lparr>op = ADD, cond = 2, reg_target = 1, reg_src1 = 0, reg_src2 = 15, offset = 3\<rparr>"

definition demo_decode :: "int \<Rightarrow> error + Instruction" where
  "demo_decode word = Inr demo_instr"

definition demo_alu :: "OpCode \<Rightarrow> int \<Rightarrow> int \<Rightarrow> error + int \<times> CondFlag" where
  "demo_alu opc a b = Inr (a + b, 4)"

text \<open>The CPU after \<open>CPU.__init__\<close> with the program counter put to 7 and the flags \<open>c\<close>.\<close>

definition demo_cpu :: "CondFlag \<Rightarrow> (int \<Rightarrow> int) CPU" where
  "demo_cpu c = pc_put (CPU_init c (\<lambda>a. 0)) 7"

section \<open>assembler\_pass1.py\<close>

subsection \<open>Regular expressions\<close>

text \<open>
  Source text is a list of characters with code points below 256. The character classes are
  those of Python's \<open>re\<close> on \<open>str\<close> patterns: \<open>[a-z]\<close> ranges compare code points,
  \<open>\w\<close> is an alphanumeric character or the underscore, \<open>\s\<close> is a whitespace
  character, and \<open>.\<close> is any character but the newline.
\<close>

datatype cls =
    Ch char
  | Rng char char
  | W
  | S
  | Dot
  | Or cls cls

definition in_range :: "nat \<Rightarrow> nat \<Rightarrow> nat \<Rightarrow> bool" where
  "in_range lo hi n \<longleftrightarrow> lo \<le> n \<and> n \<le> hi"

definition is_word :: "char \<Rightarrow> bool" where
  "is_word c =
     (let n = (of_char c :: nat)
      in in_range 48 57 n \<or> in_range 65 90 n \<or> n = 95 \<or> in_range 97 122 n \<or>
         n = 170 \<or> n = 178 \<or> n = 179 \<or> n = 181 \<or> n = 185 \<or> n = 186 \<or>
         in_range 188 190 n \<or> in_range 192 214 n \<or> in_range 216 246 n \<or>
         in_range 248 255 n)"

definition is_space :: "char \<Rightarrow> bool" where
  "is_space c =
     (let n = (of_char c :: nat)
      in in_range 9 13 n \<or> in_range 28 32 n \<or> n = 133 \<or> n = 160)"

fun cmatch :: "cls \<Rightarrow> char \<Rightarrow> bool" where
  "cmatch (Ch a) c = (c = a)"
| "cmatch (Rng lo hi) c = in_range (of_char lo) (of_char hi) (of_char c)"
| "cmatch W c = is_word c"
| "cmatch S c = is_space c"
| "cmatch Dot c = (c \<noteq> CHR ''\<newline>'')"
| "cmatch (Or a b) c = (cmatch a c \<or> cmatch b c)"

text \<open>
  The fragment of the pattern language that the four patterns use. Repetition is applied to
  single character classes only. \<open>Grp n r\<close> is the named group \<open>(?P<n> r)\<close>; unnamed
  groups are plain nesting. \<open>Eol\<close> is \<open>$\<close>: the end of the text, or just before a newline
  that ends the text.
\<close>

datatype regex =
    Eps
  | Atom cls
  | Star cls
  | Plus cls
  | Seq regex regex
  | Alt regex regex
  | Opt regex
  | Grp string regex
  | Eol

type_synonym caps = "string \<rightharpoonup> string"

text \<open>
  Backtracking matching as \<open>re\<close> does it: alternatives left to right, repetition and
  option greedy, the first complete match wins. \<open>k\<close> is what remains to be matched; it gets
  the rest of the text and the groups captured so far.
\<close>

fun star_match :: "cls \<Rightarrow> string \<Rightarrow> caps \<Rightarrow> (string \<Rightarrow> caps \<Rightarrow> caps option) \<Rightarrow> caps option" where
  "star_match a [] c k = k [] c"
| "star_match a (x # xs) c k =
     (if cmatch a x
      then (case star_match a xs c k of Some r \<Rightarrow> Some r | None \<Rightarrow> k (x # xs) c)
      else k (x # xs) c)"

fun rmatch :: "regex \<Rightarrow> string \<Rightarrow> caps \<Rightarrow> (string \<Rightarrow> caps \<Rightarrow> caps option) \<Rightarrow> caps option" where
  "rmatch Eps s c k = k s c"
| "rmatch (Atom a) s c k =
     (case s of [] \<Rightarrow> None | x # xs \<Rightarrow> if cmatch a x then k xs c else None)"
| "rmatch (Star a) s c k = star_match a s c k"
| "rmatch (Plus a) s c k =
     (case s of [] \<Rightarrow> None | x # xs \<Rightarrow> if cmatch a x then star_match a xs c k else None)"
| "rmatch (Seq r1 r2) s c k = rmatch r1 s c (\<lambda>s' c'. rmatch r2 s' c' k)"
| "rmatch (Alt r1 r2) s c k =
     (case rmatch r1 s c k of Some r \<Rightarrow> Some r | None \<Rightarrow> rmatch r2 s c k)"
| "rmatch (Opt r1) s c k =
     (case rmatch r1 s c k of Some r \<Rightarrow> Some r | None \<Rightarrow> k s c)"
| "rmatch (Grp n r1) s c k =
     rmatch r1 s c (\<lambda>s' c'. k s' (c'(n \<mapsto> take (length s - length s') s)))"
| "rmatch Eol s c k = (if s = [] \<or> s = [CHR ''\<newline>''] then k s c else None)"

definition fullmatch :: "regex \<Rightarrow> string \<Rightarrow> caps option" where
  "fullmatch r s = rmatch r s Map.empty (\<lambda>s' c. if s' = [] then Some c else None)"

fun seq :: "regex list \<Rightarrow> regex" where
  "seq [] = Eps"
| "seq [r] = r"
| "seq (r # rs) = Seq r (seq rs)"

fun lit :: "string \<Rightarrow> regex" where
  "lit [] = Eps"
| "lit [x] = Atom (Ch x)"
| "lit (x # xs) = Seq (Atom (Ch x)) (lit xs)"

subsection \<open>The line patterns\<close>

definition alpha :: cls where
  "alpha = Or (Rng CHR ''a'' CHR ''z'') (Rng CHR ''A'' CHR ''Z'')"

definition digit :: cls where
  "digit = Rng CHR ''0'' CHR ''9''"

definition hexdigit :: cls where
  "hexdigit = Or (Rng CHR ''a'' CHR ''f'') (Or (Rng CHR ''A'' CHR ''F'') (Rng CHR ''0'' CHR ''9''))"

text \<open>The optional label \<open>( (?P<label> [a-zA-Z]\w*): )?\<close> that starts every pattern.\<close>

definition label_part :: regex where
  "label_part = Opt (Seq (Grp ''label'' (Seq (Atom alpha) (Star W))) (Atom (Ch CHR '':'')))"

text \<open>The optional comment \<open>( \s* (?P<comment>[\#;].*) )?\<close>.\<close>

definition comment_part :: regex where
  "comment_part =
     Opt (Seq (Star S)
       (Grp ''comment'' (Seq (Atom (Or (Ch CHR ''#'') (Ch CHR '';''))) (Star Dot))))"

definition register_name :: regex where
  "register_name = Seq (Atom (Ch CHR ''r'')) (Plus digit)"

definition predicate_part :: regex where
  "predicate_part = Opt (Seq (Atom (Ch CHR ''/'')) (Grp ''predicate'' (Plus alpha)))"

definition ASM_SYMBOL_PAT :: regex where
  "ASM_SYMBOL_PAT = seq
     [label_part,
      Star S,
      Grp ''opcode'' (Alt (lit ''LOAD'') (Alt (lit ''STORE'') (lit ''JUMP''))),
      predicate_part,
      Plus S,
      Opt (Seq (Grp ''target'' register_name) (Atom (Ch CHR '',''))),
      Grp ''symbol'' (Plus W),
      comment_part,
      Star S,
      Eol]"

definition ASM_COMMENT_PAT :: regex where
  "ASM_COMMENT_PAT = seq
     [label_part,
      Star S,
      Opt (Grp ''comment'' (Seq (Atom (Or (Ch CHR ''#'') (Ch CHR '';''))) (Star Dot))),
      Star S,
      Eol]"

definition ASM_FULL_PAT :: regex where
  "ASM_FULL_PAT = seq
     [label_part,
      Star S,
      Grp ''opcode'' (Plus alpha),
      predicate_part,
      Plus S,
      Grp ''target'' register_name, Atom (Ch CHR '',''),
      Grp ''src1'' register_name, Atom (Ch CHR '',''),
      Grp ''src2'' register_name,
      Opt (seq [Atom (Ch CHR ''[''),
                Grp ''offset'' (Seq (Opt (Atom (Ch CHR ''-''))) (Plus digit)),
                Atom (Ch CHR '']'')]),
      comment_part,
      Star S,
      Eol]"

definition ASM_DATA_PAT :: regex where
  "ASM_DATA_PAT = seq
     [label_part,
      Star S,
      Grp ''opcode'' (lit ''DATA''),
      Star S,
      Opt (Grp ''value'' (Alt (Seq (lit ''0x'') (Plus hexdigit)) (Plus digit))),
      comment_part,
      Star S,
      Eol]"

datatype AsmSrcKind = COMMENT | FULL | DATA | SYMBOL

text \<open>
  The dict that \<open>parse_line\<close> returns: \<open>groupdict()\<close> has every named group of the pattern
  as a key, with \<open>None\<close> for a group that took no part in the match, and the key
  \<open>kind\<close> is added to it.
\<close>

record Fields =
  groups :: "string \<rightharpoonup> string option"
  kind :: AsmSrcKind

fun group_names :: "regex \<Rightarrow> string list" where
  "group_names (Seq r1 r2) = group_names r1 @ group_names r2"
| "group_names (Alt r1 r2) = group_names r1 @ group_names r2"
| "group_names (Opt r1) = group_names r1"
| "group_names (Grp n r1) = n # group_names r1"
| "group_names r = []"

definition groupdict :: "regex \<Rightarrow> caps \<Rightarrow> (string \<rightharpoonup> string option)" where
  "groupdict r c = map_of (map (\<lambda>n. (n, c n)) (group_names r))"

definition PATTERNS :: "(regex \<times> AsmSrcKind) list" where
  "PATTERNS = [(ASM_FULL_PAT, FULL), (ASM_DATA_PAT, DATA),
               (ASM_COMMENT_PAT, COMMENT), (ASM_SYMBOL_PAT, SYMBOL)]"

fun try_patterns :: "(regex \<times> AsmSrcKind) list \<Rightarrow> string \<Rightarrow> error + Fields" where
  "try_patterns [] line = Inl SyntaxError"
| "try_patterns ((pattern, knd) # ps) line =
     (case fullmatch pattern line of
        Some c \<Rightarrow> Inr \<lparr>groups = groupdict pattern c, kind = knd\<rparr>
      | None \<Rightarrow> try_patterns ps line)"

definition parse_line :: "string \<Rightarrow> error + Fields" where
  "parse_line line = try_patterns PATTERNS line"


subsection \<open>Text of values\<close>

text \<open>\<open>str\<close> of an integer: decimal digits, a minus sign for a negative number.\<close>

definition digit_char :: "nat \<Rightarrow> char" where
  "digit_char d = ''0123456789'' ! d"

fun str_nat :: "nat \<Rightarrow> string" where
  "str_nat n = (if n < 10 then [digit_char n] else str_nat (n div 10) @ [digit_char (n mod 10)])"

declare str_nat.simps [simp del]

definition str_int :: "int \<Rightarrow> string" where
  "str_int i = (if i < 0 then CHR ''-'' # str_nat (nat (- i)) else str_nat (nat i))"

text \<open>What \<open>'{}'.format(x)\<close> puts for a group value: the text, or \<open>None\<close>.\<close>

fun fmt :: "string option \<Rightarrow> string" where
  "fmt None = ''None''"
| "fmt (Some s) = s"

text \<open>\<open>bool(x)\<close> of a group value: false for \<open>None\<close> and for the empty text.\<close>

fun truthy :: "string option \<Rightarrow> bool" where
  "truthy None = False"
| "truthy (Some s) = (s \<noteq> [])"

text \<open>
  \<open>fields[key]\<close> raises KeyError for a key that the dict does not have. The variable
  \<open>fields\<close> of the source is \<open>flds\<close> here.
\<close>

definition fields_get :: "Fields \<Rightarrow> string \<Rightarrow> error + string option" where
  "fields_get flds key = (case groups flds key of None \<Rightarrow> Inl KeyError | Some v \<Rightarrow> Inr v)"

subsection \<open>value\_parse and fill\_defaults\<close>

text \<open>
  \<open>int(s, base)\<close> on a text of digits of the base; base 16 accepts the prefix \<open>0x\<close>.
  \<open>value_parse\<close> is only applied to the text of the group \<open>value\<close>, which consists of
  such digits; on any other text the model answers ValueError. Applied to \<open>None\<close>, the
  call \<open>int_literal.startswith\<close> raises AttributeError.
\<close>

definition digit_val :: "char \<Rightarrow> nat option" where
  "digit_val c =
     (let n = (of_char c :: nat)
      in if in_range 48 57 n then Some (n - 48)
         else if in_range 97 102 n then Some (n - 87)
         else if in_range 65 70 n then Some (n - 55)
         else None)"

fun digits_val :: "nat \<Rightarrow> int \<Rightarrow> string \<Rightarrow> error + int" where
  "digits_val base acc [] = Inr acc"
| "digits_val base acc (x # xs) =
     (case digit_val x of
        None \<Rightarrow> Inl ValueError
      | Some d \<Rightarrow> if d < base then digits_val base (acc * int base + int d) xs
                  else Inl ValueError)"

definition py_int :: "string \<Rightarrow> nat \<Rightarrow> error + int" where
  "py_int s base =
     (let ds = (if base = 16 \<and> take 2 s = ''0x'' then drop 2 s else s)
      in if ds = [] then Inl ValueError else digits_val base 0 ds)"

definition value_parse :: "string option \<Rightarrow> error + int" where
  "value_parse int_literal =
     (case int_literal of
        None \<Rightarrow> Inl AttributeError
      | Some s \<Rightarrow> if take 2 s = ''0x'' then py_int s 16 else py_int s 10)"

definition INSTR_DEFAULTS :: "(string \<times> string) list" where
  "INSTR_DEFAULTS = [(''predicate'', ''ALWAYS''), (''offset'', ''0'')]"

fun fill_loop :: "(string \<times> string) list \<Rightarrow> Fields \<Rightarrow> error + Fields" where
  "fill_loop [] flds = Inr flds"
| "fill_loop ((key, v) # rest) flds =
     bind_e (fields_get flds key) (\<lambda>cur.
       if cur = None
       then fill_loop rest (flds\<lparr>groups := (groups flds)(key \<mapsto> Some v)\<rparr>)
       else fill_loop rest flds)"

definition fill_defaults :: "Fields \<Rightarrow> error + Fields" where
  "fill_defaults flds = fill_loop INSTR_DEFAULTS flds"

subsection \<open>Error reports\<close>

text \<open>
  The three handlers of the loops print one line each and go on with the next source line:
  \<open>Syntax error in line ...\<close> for the module's SyntaxError, \<open>Unknown word in line ...\<close> for
  a KeyError, \<open>Exception encountered in line ...\<close> for any other exception. The printed
  lines are collected as reports, with the line number.
\<close>

datatype report =
    SyntaxErrorReport nat string
  | UnknownWordReport nat
  | ExceptionReport nat

fun handler :: "error \<Rightarrow> nat \<Rightarrow> string \<Rightarrow> report" where
  "handler SyntaxError lnum line = SyntaxErrorReport lnum line"
| "handler KeyError lnum line = UnknownWordReport lnum"
| "handler e lnum line = ExceptionReport lnum"

definition enumerate_lines :: "string list \<Rightarrow> (nat \<times> string) list" where
  "enumerate_lines lines = zip [0..<length lines] lines"

subsection \<open>Pass 1: build\_table\<close>

record bt_state =
  datadict :: "string \<rightharpoonup> int"
  bt_address :: int
  bt_reports :: "report list"

text \<open>The body of the loop of \<open>build_table\<close>, for line number \<open>lnum\<close>.\<close>

definition build_body :: "bt_state \<Rightarrow> nat \<times> string \<Rightarrow> bt_state" where
  "build_body st nl =
     (let lnum = fst nl; line = snd nl;
          r = bind_e (parse_line line) (\<lambda>flds.
                bind_e (fields_get flds ''label'') (\<lambda>label.
                  if truthy label then
                    (let st1 = st\<lparr>datadict := (datadict st)(the label \<mapsto> bt_address st)\<rparr>
                     in if kind flds \<noteq> COMMENT
                        then Inr (st1\<lparr>bt_address := bt_address st1 + 1\<rparr>)
                        else Inr st1)
                  else if kind flds \<noteq> COMMENT
                    then Inr (st\<lparr>bt_address := bt_address st + 1\<rparr>)
                    else Inr st))
      in case r of
           Inl e \<Rightarrow> st\<lparr>bt_reports := bt_reports st @ [handler e lnum line]\<rparr>
         | Inr st' \<Rightarrow> st')"

definition bt_start :: bt_state where
  "bt_start = \<lparr>datadict = Map.empty, bt_address = 0, bt_reports = []\<rparr>"

definition build_loop :: "string list \<Rightarrow> bt_state" where
  "build_loop lines = foldl build_body bt_start (enumerate_lines lines)"

definition build_table :: "string list \<Rightarrow> (string \<rightharpoonup> int)" where
  "build_table lines = datadict (build_loop lines)"

subsection \<open>Pass 2: resolve\_line and transform\_line\<close>

definition resolve_line :: "int \<Rightarrow> Fields \<Rightarrow> (string \<rightharpoonup> int) \<Rightarrow> error + string" where
  "resolve_line current_address flds sym_table =
     bind_e (fields_get flds ''symbol'') (\<lambda>symbol.
     bind_e (case symbol of None \<Rightarrow> Inl KeyError
             | Some s \<Rightarrow> (case sym_table s of None \<Rightarrow> Inl KeyError | Some a \<Rightarrow> Inr a)) (\<lambda>a.
       let new_addr = a - current_address
       in bind_e (fields_get flds ''opcode'') (\<lambda>opcode.
          bind_e (fields_get flds ''predicate'') (\<lambda>predicate.
            if opcode = Some ''JUMP'' then
              (if truthy predicate
               then Inr (''ADD'' @ ''/'' @ fmt predicate @ ''  r15,r0,r15['' @ str_int new_addr @ '']'')
               else Inr (''ADD'' @ '' r15,r0,r15['' @ str_int new_addr @ '']''))
            else
              bind_e (fields_get flds ''target'') (\<lambda>target.
                Inr (fmt opcode @ ''   '' @ fmt target @ '',r0,r15['' @ str_int new_addr @ '']''))))))"

record tl_state =
  tl_address :: int
  instructions :: "string list"
  tl_reports :: "report list"

text \<open>
  The body of the loop of \<open>transform_line\<close>. \<open>instruction_from_dict\<close> followed by \<open>str\<close>
  (instr\_format.py, not under src/) is the parameter \<open>instr_text\<close>, which may raise.
  In every branch the address is incremented after the calls that may raise.
\<close>

definition transform_body ::
  "(Fields \<Rightarrow> error + string) \<Rightarrow> (string \<rightharpoonup> int) \<Rightarrow> tl_state \<Rightarrow> nat \<times> string \<Rightarrow> tl_state" where
  "transform_body instr_text symb_table st nl =
     (let lnum = fst nl; line = snd nl;
          r = bind_e (parse_line line) (\<lambda>flds.
                if kind flds = FULL then
                  bind_e (fill_defaults flds) (\<lambda>flds'.
                  bind_e (instr_text flds') (\<lambda>instr.
                    Inr (st\<lparr>instructions := instructions st @ [instr],
                            tl_address := tl_address st + 1\<rparr>)))
                else if kind flds = SYMBOL then
                  bind_e (resolve_line (tl_address st) flds symb_table) (\<lambda>instr.
                    Inr (st\<lparr>instructions := instructions st @ [instr],
                            tl_address := tl_address st + 1\<rparr>))
                else if kind flds = DATA then
                  bind_e (fields_get flds ''value'') (\<lambda>v.
                  bind_e (value_parse v) (\<lambda>word.
                  bind_e (fields_get flds ''label'') (\<lambda>label.
                    let instr = fmt label @ '':  DATA '' @ str_int word
                    in Inr (st\<lparr>instructions := instructions st @ [instr],
                               tl_address := tl_address st + 1\<rparr>))))
                else if kind flds = COMMENT then
                  bind_e (fields_get flds ''label'') (\<lambda>label.
                  bind_e (fields_get flds ''comment'') (\<lambda>comment.
                    let instr = (if truthy label \<and> truthy comment
                                 then fmt label @ '':   '' @ fmt comment
                                 else if truthy label then fmt label @ '':''
                                 else fmt comment)
                    in Inr (st\<lparr>instructions := instructions st @ [instr]\<rparr>)))
                else Inr st)
      in case r of
           Inl e \<Rightarrow> st\<lparr>tl_reports := tl_reports st @ [handler e lnum line]\<rparr>
         | Inr st' \<Rightarrow> st')"

definition tl_start :: tl_state where
  "tl_start = \<lparr>tl_address = 0, instructions = [], tl_reports = []\<rparr>"

definition transform_loop ::
  "(Fields \<Rightarrow> error + string) \<Rightarrow> string list \<Rightarrow> (string \<rightharpoonup> int) \<Rightarrow> tl_state" where
  "transform_loop instr_text lines symb_table =
     foldl (transform_body instr_text symb_table) tl_start (enumerate_lines lines)"

definition transform_line ::
  "(Fields \<Rightarrow> error + string) \<Rightarrow> string list \<Rightarrow> (string \<rightharpoonup> int) \<Rightarrow> string list" where
  "transform_line instr_text lines symb_table =
     instructions (transform_loop instr_text lines symb_table)"


subsection \<open>A source text with an unresolved symbol\<close>

text \<open>Three lines as \<open>readlines\<close> gives them; no line defines the symbol \<open>nowhere\<close>.\<close>

definition unresolved_program :: "string list" where
  "unresolved_program = [''JUMP nowhere\<newline>'', ''x: DATA 5\<newline>'', ''LOAD r1,x\<newline>'']"

subsection \<open>A source text with a reference that names no register\<close>

text \<open>
  Two lines as \<open>readlines\<close> gives them. \<open>ASM_SYMBOL_PAT\<close> makes the target register
  optional, so \<open>LOAD x\<close> is a symbolic line.
\<close>

definition untargeted_program :: "string list" where
  "untargeted_program = [''x: DATA 5\<newline>'', ''LOAD x\<newline>'']"

chapter \<open>Verification\<close>

section \<open>Bit fields\<close>

lemma mask_fold:
  "foldl (\<lambda>m i. push_bit 1 m + 1) (a::int) (xs::int list) = (a + 1) * 2 ^ length xs - 1"
  by (induction xs arbitrary: a) (simp_all add: algebra_simps)

lemma mask_loop_eq: "mask_loop f t = mask (nat (t - f + 1))"
  unfolding mask_loop_def mask_fold by (simp add: mask_eq_exp_minus_1)

lemma BitField_init_ok:
  "0 \<le> f \<Longrightarrow> BitField_init f t =
     Inr \<lparr>from_bit = f, to_bit = t, width = t - f + 1, mask_bf = mask (nat (t - f + 1)),
          shifted_mask = push_bit (nat f) (mask (nat (t - f + 1))),
          mask_inverse = NOT (push_bit (nat f) (mask (nat (t - f + 1))))\<rparr>"
  by (simp add: BitField_init_def py_lshift_def mask_loop_eq Let_def)

lemma extract_insert_int:
  fixes v w :: int
  assumes "0 \<le> v" "v < 2 ^ n"
  shows "drop_bit k (push_bit k (mask n) AND
           ((push_bit k (mask n) AND push_bit k v) OR (w AND NOT (push_bit k (mask n))))) = v"
proof -
  have v: "take_bit n v = v" using assms by (simp add: take_bit_int_eq_self)
  have "drop_bit k (push_bit k (mask n) AND
          ((push_bit k (mask n) AND push_bit k v) OR (w AND NOT (push_bit k (mask n)))))
        = take_bit n v"
    by (rule bit_eqI) (auto simp add: bit_simps)
  then show ?thesis using v by simp
qed

lemma insert_outside_int:
  fixes v w :: int
  assumes "\<not> (k \<le> i \<and> i < k + n)"
  shows "bit ((push_bit k (mask n) AND push_bit k v) OR (w AND NOT (push_bit k (mask n)))) i
         = bit w i"
  using assms by (auto simp add: bit_simps)

text \<open>
  C4. For a field with \<open>0 \<le> from_bit \<le> to_bit \<le> 31\<close>, a 32-bit word \<open>w\<close> and a value
  \<open>v\<close> that fits in the width of the field, the constructor succeeds, \<open>insert\<close> succeeds,
  \<open>extract\<close> of the result is \<open>v\<close>, and the result has the bits of \<open>w\<close> at every position
  outside \<open>from_bit .. to_bit\<close>.
\<close>

theorem bitfield_insert_extract:
  assumes "0 \<le> f" "f \<le> t" "t \<le> 31" "0 \<le> w" "w < 2 ^ 32"
    and "0 \<le> v" "v < 2 ^ nat (t - f + 1)"
  shows "\<exists>bf w'. BitField_init f t = Inr bf \<and> width bf = t - f + 1 \<and>
           insert_bf bf v w = Inr w' \<and> extract_bf bf w' = Inr v \<and>
           (\<forall>i. \<not> (nat f \<le> i \<and> i \<le> nat t) \<longrightarrow> bit w' i = bit w i)"
proof -
  let ?n = "nat (t - f + 1)" and ?k = "nat f"
  let ?bf = "\<lparr>from_bit = f, to_bit = t, width = t - f + 1, mask_bf = mask ?n,
          shifted_mask = push_bit ?k (mask ?n), mask_inverse = NOT (push_bit ?k (mask ?n))\<rparr>"
  let ?w' = "(push_bit ?k (mask ?n) AND push_bit ?k v) OR (w AND NOT (push_bit ?k (mask ?n)))"
  have init: "BitField_init f t = Inr ?bf"
    using assms(1) by (rule BitField_init_ok)
  have ins: "insert_bf ?bf v w = Inr ?w'"
    using assms(1) by (simp add: insert_bf_def py_lshift_def)
  have ext: "extract_bf ?bf ?w' = Inr v"
    using assms(1) extract_insert_int [OF assms(6,7), of ?k w]
    by (simp add: extract_bf_def py_rshift_def)
  have out: "\<forall>i. \<not> (nat f \<le> i \<and> i \<le> nat t) \<longrightarrow> bit ?w' i = bit w i"
  proof (intro allI impI)
    fix i assume "\<not> (nat f \<le> i \<and> i \<le> nat t)"
    then have "\<not> (?k \<le> i \<and> i < ?k + ?n)" using assms(1,2) by auto
    then show "bit ?w' i = bit w i" by (rule insert_outside_int)
  qed
  have wd: "width ?bf = t - f + 1" by simp
  show ?thesis using init ins ext out wd by blast
qed

theorem bitfield_insert_extract_witness:
  "\<exists>bf w'. BitField_init 4 7 = Inr bf \<and> width bf = 4 \<and>
     insert_bf bf 9 43981 = Inr w' \<and> extract_bf bf w' = Inr 9 \<and>
     bit w' 8 = bit (43981::int) 8 \<and> bit w' 3 = bit (43981::int) 3"
proof -
  obtain bf w' where h: "BitField_init 4 7 = Inr bf" "width bf = 4"
      "insert_bf bf 9 43981 = Inr w'" "extract_bf bf w' = Inr 9"
      "\<forall>i. \<not> (4 \<le> i \<and> i \<le> 7) \<longrightarrow> bit w' i = bit (43981::int) i"
    using bitfield_insert_extract [of 4 7 43981 9] by auto
  have "bit w' 8 = bit (43981::int) 8" "bit w' 3 = bit (43981::int) 3"
    using h(5) by simp_all
  then show ?thesis using h by blast
qed

lemma sign_extend_unfold:
  assumes "1 < w" "0 \<le> f" "f < 2 ^ nat (w + 1)"
  shows "sign_extend f w =
    Inr (if f AND 2 ^ nat (w - 1) \<noteq> 0
         then (f AND (2 ^ nat (w - 1) - 1)) - 2 ^ nat (w - 1) else f)"
  using assms by (simp add: sign_extend_def py_lshift_def Let_def)

lemma and_sign_bit: "(f::int) AND 2 ^ n \<noteq> 0 \<longleftrightarrow> bit f n"
  by (simp add: and_exp_eq_0_iff_not_bit)

lemma low_bits_minus_sign:
  fixes f :: int
  assumes "0 \<le> f" "f < 2 ^ Suc n" "bit f n"
  shows "(f AND (2 ^ n - 1)) - 2 ^ n = f - 2 ^ Suc n"
proof -
  have tb: "take_bit (Suc n) f = f" using assms by (simp add: take_bit_int_eq_self)
  have "f AND (2 ^ n - 1) = take_bit n f" by (simp add: take_bit_eq_mask mask_eq_exp_minus_1)
  moreover have "take_bit (Suc n) f = take_bit n f + 2 ^ n"
    using assms(3) by (simp add: take_bit_Suc_from_most)
  ultimately show ?thesis using tb by simp
qed

lemma sign_extend_eq:
  assumes "2 \<le> w" "0 \<le> f" "f < 2 ^ nat w"
  shows "sign_extend f w = Inr (if bit f (nat (w - 1)) then f - 2 ^ nat w else f)"
proof -
  obtain n where n: "nat w = Suc n" using assms(1) by (cases "nat w") auto
  have w1: "nat (w - 1) = n" using n by linarith
  have w2: "nat (w + 1) = Suc (Suc n)" using n by linarith
  have "(2::int) ^ Suc n \<le> 2 ^ Suc (Suc n)" by simp
  moreover have "f < 2 ^ Suc n" using assms(3) n by simp
  ultimately have "f < 2 ^ Suc (Suc n)" by linarith
  then have lim: "f < 2 ^ nat (w + 1)" using w2 by simp
  have "sign_extend f w =
    Inr (if f AND 2 ^ n \<noteq> 0 then (f AND (2 ^ n - 1)) - 2 ^ n else f)"
    using sign_extend_unfold [of w f] assms lim w1 by simp
  also have "\<dots> = Inr (if bit f n then f - 2 ^ Suc n else f)"
    using low_bits_minus_sign [of f n] assms n by (simp only: and_sign_bit) simp
  finally show ?thesis using n w1 by simp
qed

text \<open>
  C7. For a width of at least 2 and a field value \<open>f\<close> with \<open>0 \<le> f < 2 ^ width\<close>,
  \<open>sign_extend\<close> returns \<open>f\<close>, which is not negative, when bit \<open>width - 1\<close> of \<open>f\<close> is 0,
  and returns \<open>f - 2 ^ width\<close>, which is negative, when that bit is 1.
\<close>

theorem sign_extend_spec:
  assumes "2 \<le> w" "0 \<le> f" "f < 2 ^ nat w"
  shows "(\<not> bit f (nat (w - 1)) \<longrightarrow> sign_extend f w = Inr f \<and> 0 \<le> f) \<and>
         (bit f (nat (w - 1)) \<longrightarrow> sign_extend f w = Inr (f - 2 ^ nat w) \<and> f - 2 ^ nat w < 0)"
  using sign_extend_eq [OF assms] assms by simp

theorem sign_extend_spec_witness:
  "sign_extend 11 4 = Inr (- 5) \<and> sign_extend 3 4 = Inr 3"
proof -
  have b1: "bit (11::int) (nat (4 - 1))" by (simp add: bit_iff_odd_drop_bit drop_bit_eq_div)
  have b2: "\<not> bit (3::int) (nat (4 - 1))" by (simp add: bit_iff_odd_drop_bit drop_bit_eq_div)
  show ?thesis
    using sign_extend_spec [of 4 11] sign_extend_spec [of 4 3] b1 b2 by simp
qed


section \<open>The CPU step\<close>

lemma bind_e_Inr [simp]: "bind_e (Inr v) f = f v"
  by (simp add: bind_e_def)

lemma bind_e_Inl [simp]: "bind_e (Inl e) f = Inl e"
  by (simp add: bind_e_def)

lemma wf_regs:
  assumes "cpu_wf cpu"
  obtains a rs where "registers cpu = ZeroRegister # rs" "length rs = 15" "ZeroRegister \<notin> set rs"
proof -
  from assms have l: "length (registers cpu) = 16" and h: "hd (registers cpu) = ZeroRegister"
    and t: "ZeroRegister \<notin> set (tl (registers cpu))" by (simp_all add: cpu_wf_def)
  from l obtain x rs where xs: "registers cpu = x # rs" by (cases "registers cpu") auto
  with l h t have "registers cpu = ZeroRegister # rs" "length rs = 15" "ZeroRegister \<notin> set rs"
    by simp_all
  then show ?thesis using that by blast
qed

lemma wf_pc_plain:
  assumes "cpu_wf cpu"
  shows "\<exists>v. registers cpu ! 15 = Register v"
proof -
  from assms obtain rs where r: "registers cpu = ZeroRegister # rs" "length rs = 15"
      "ZeroRegister \<notin> set rs" by (rule wf_regs)
  have "rs ! 14 \<in> set rs" using r(2) by simp
  then have "rs ! 14 \<noteq> ZeroRegister" using r(3) by metis
  then obtain v where "rs ! 14 = Register v" by (cases "rs ! 14") auto
  then show ?thesis using r(1) by simp
qed

lemma pc_put_get:
  assumes "cpu_wf cpu"
  shows "pc_get (pc_put cpu v) = v"
proof -
  obtain old where o: "registers cpu ! 15 = Register old" using wf_pc_plain [OF assms] by blast
  have "length (registers cpu) = 16" using assms by (simp add: cpu_wf_def)
  then show ?thesis using o by (simp add: pc_get_def pc_put_def)
qed

lemma pc_put_frame:
  "memory (pc_put cpu v) = memory cpu" "condition (pc_put cpu v) = condition cpu"
  "halted (pc_put cpu v) = halted cpu" "length (registers (pc_put cpu v)) = length (registers cpu)"
  "i \<noteq> 15 \<Longrightarrow> registers (pc_put cpu v) ! i = registers cpu ! i"
  by (simp_all add: pc_put_def)

lemma pc_put_wf:
  assumes "cpu_wf cpu"
  shows "cpu_wf (pc_put cpu v)"
proof -
  from assms obtain rs where r: "registers cpu = ZeroRegister # rs" "length rs = 15"
      "ZeroRegister \<notin> set rs" by (rule wf_regs)
  obtain old where o: "registers cpu ! 15 = Register old" using wf_pc_plain [OF assms] by blast
  have "set (rs[14 := Register v]) \<subseteq> insert (Register v) (set rs)" by (rule set_update_subset_insert)
  then have "ZeroRegister \<notin> set (rs[14 := Register v])" using r(3) by auto
  then show ?thesis using r o by (simp add: cpu_wf_def pc_put_def)
qed

text \<open>
  C3. When the condition mask of the fetched instruction has no flag in common with the
  current condition flags, the step succeeds, advances the program counter by exactly one and
  leaves every other register, the memory, the condition flags and the halted flag as they
  were.
\<close>

theorem step_predicate_false:
  assumes "cpu_wf cpu"
    and "mem_get (memory cpu) (pc_get cpu) = Inr word"
    and "decode word = Inr instr"
    and "(condition cpu AND cond instr) = 0"
  shows "\<exists>cpu'. step decode alu_exec mem_get mem_put cpu = Inr cpu' \<and>
           pc_get cpu' = pc_get cpu + 1 \<and>
           length (registers cpu') = length (registers cpu) \<and>
           (\<forall>i. i \<noteq> 15 \<longrightarrow> registers cpu' ! i = registers cpu ! i) \<and>
           memory cpu' = memory cpu \<and> condition cpu' = condition cpu \<and>
           halted cpu' = halted cpu"
proof -
  have "step decode alu_exec mem_get mem_put cpu = Inr (pc_put cpu (pc_get cpu + 1))"
    using assms(2-4) by (simp add: step_def)
  then show ?thesis
    using pc_put_get [OF assms(1)] pc_put_frame by blast
qed

lemma demo_cpu_wf: "cpu_wf (demo_cpu c)"
  unfolding demo_cpu_def
  by (rule pc_put_wf) (simp add: cpu_wf_def CPU_init_def)

lemma demo_cpu_pc: "pc_get (demo_cpu c) = 7"
  unfolding demo_cpu_def
  by (rule pc_put_get) (simp add: cpu_wf_def CPU_init_def)

theorem step_predicate_false_witness:
  "\<exists>cpu'. step demo_decode demo_alu demo_get demo_put (demo_cpu 4) = Inr cpu' \<and>
     pc_get cpu' = 8 \<and> registers cpu' ! 1 = registers (demo_cpu 4) ! 1 \<and>
     memory cpu' = memory (demo_cpu 4) \<and> condition cpu' = 4 \<and> halted cpu' = halted (demo_cpu 4)"
proof -
  have a: "demo_get (memory (demo_cpu 4)) (pc_get (demo_cpu 4)) = Inr 0"
    by (simp add: demo_get_def demo_cpu_def pc_put_def CPU_init_def)
  have b: "demo_decode 0 = Inr demo_instr" by (simp add: demo_decode_def)
  have c: "(condition (demo_cpu 4) AND cond demo_instr) = 0"
    by (simp add: demo_cpu_def pc_put_def CPU_init_def demo_instr_def)
  have d: "condition (demo_cpu 4) = 4" by (simp add: demo_cpu_def pc_put_def CPU_init_def)
  show ?thesis
    using step_predicate_false [where cpu = "demo_cpu 4" and mem_get = demo_get
        and decode = demo_decode and word = 0 and instr = demo_instr
        and alu_exec = demo_alu and mem_put = demo_put, OF demo_cpu_wf a b c]
      demo_cpu_pc [of 4] d
    by fastforce
qed










section \<open>Symbolic resolution\<close>

lemma fields_get_Some: "groups flds key = Some v \<Longrightarrow> fields_get flds key = Inr v"
  by (simp add: fields_get_def)

lemma resolve_line_eq:
  assumes "groups flds ''symbol'' = Some (Some s)" and "sym_table s = Some a"
    and "groups flds ''opcode'' = Some opc" and "groups flds ''predicate'' = Some p"
    and "groups flds ''target'' = Some t"
  shows "resolve_line cur flds sym_table =
     Inr (if opc = Some ''JUMP''
          then (if truthy p
                then ''ADD/'' @ fmt p @ ''  r15,r0,r15['' @ str_int (a - cur) @ '']''
                else ''ADD r15,r0,r15['' @ str_int (a - cur) @ '']'')
          else fmt opc @ ''   '' @ fmt t @ '',r0,r15['' @ str_int (a - cur) @ '']'')"
  using assms by (simp add: resolve_line_def fields_get_Some Let_def)

lemma digit_char_in: "d < 10 \<Longrightarrow> digit_char d \<in> set ''0123456789''"
  unfolding digit_char_def by (rule nth_mem) simp

lemma str_nat_digits: "set (str_nat n) \<subseteq> set ''0123456789''"
proof (induction n rule: str_nat.induct)
  case (1 n)
  show ?case
  proof (cases "n < 10")
    case True
    have "str_nat n = [digit_char n]" using True by (subst str_nat.simps) simp
    then show ?thesis using digit_char_in [OF True] by simp
  next
    case False
    have e: "str_nat n = str_nat (n div 10) @ [digit_char (n mod 10)]"
      using False by (subst str_nat.simps) simp
    have "n mod 10 < 10" by simp
    then have "digit_char (n mod 10) \<in> set ''0123456789''" by (rule digit_char_in)
    then show ?thesis using 1 [OF False] unfolding e by simp
  qed
qed

lemma str_nat_no_slash: "CHR ''/'' \<notin> set (str_nat n)"
proof -
  have "CHR ''/'' \<notin> set ''0123456789''" by simp
  then show ?thesis using str_nat_digits [of n] by blast
qed

lemma str_int_no_slash: "CHR ''/'' \<notin> set (str_int i)"
  using str_nat_no_slash by (simp add: str_int_def)


text \<open>
  The text of \<open>resolve_line\<close> for a dict that has the keys of a symbolic line and a symbol
  of the table, at the address \<open>cur\<close>: with \<open>new_offset = sym_table[symbol] - cur\<close>, an ADD
  into \<open>r15\<close> for JUMP, and the opcode with the formatted target field for LOAD and STORE;
  a target field that is \<open>None\<close> is formatted as the text \<open>None\<close>.
\<close>

lemma resolve_line_text:
  assumes "groups flds ''symbol'' = Some (Some s)" and "sym_table s = Some a"
    and "groups flds ''opcode'' = Some (Some opc)" and "groups flds ''predicate'' = Some p"
    and "groups flds ''target'' = Some t"
  shows "(opc = ''JUMP'' \<and> truthy p \<longrightarrow>
            resolve_line cur flds sym_table =
              Inr (''ADD/'' @ fmt p @ ''  r15,r0,r15['' @ str_int (a - cur) @ '']'')) \<and>
         (opc = ''JUMP'' \<and> \<not> truthy p \<longrightarrow>
            resolve_line cur flds sym_table =
              Inr (''ADD r15,r0,r15['' @ str_int (a - cur) @ '']'')) \<and>
         (opc = ''LOAD'' \<or> opc = ''STORE'' \<longrightarrow>
            resolve_line cur flds sym_table =
              Inr (opc @ ''   '' @ fmt t @ '',r0,r15['' @ str_int (a - cur) @ '']''))"
  using resolve_line_eq [where sym_table = sym_table and s = s, OF assms(1,2,3,4,5), of cur]
  by auto

lemma parse_jump_back:
  "(case parse_line ''JUMP/Z loop\<newline>'' of
      Inl e \<Rightarrow> False
    | Inr f \<Rightarrow> kind f = SYMBOL \<and> groups f ''symbol'' = Some (Some ''loop'') \<and>
        groups f ''opcode'' = Some (Some ''JUMP'') \<and>
        groups f ''predicate'' = Some (Some ''Z'') \<and> groups f ''target'' = Some None)"
  by code_simp

lemma parse_load_x:
  "(case parse_line ''LOAD/Z r1,x\<newline>'' of
      Inl e \<Rightarrow> False
    | Inr f \<Rightarrow> kind f = SYMBOL \<and> groups f ''symbol'' = Some (Some ''x'') \<and>
        groups f ''opcode'' = Some (Some ''LOAD'') \<and>
        groups f ''predicate'' = Some (Some ''Z'') \<and> groups f ''target'' = Some (Some ''r1''))"
  by code_simp

lemma str_int_12: "str_int (- 12) = ''-12''" "str_int 3 = ''3''"
  by code_simp+

lemma resolve_line_text_example:
  "(\<exists>f. parse_line ''JUMP/Z loop\<newline>'' = Inr f \<and>
        resolve_line 15 f [''loop'' \<mapsto> 3, ''x'' \<mapsto> 18] = Inr ''ADD/Z  r15,r0,r15[-12]'') \<and>
   (\<exists>f. parse_line ''LOAD/Z r1,x\<newline>'' = Inr f \<and>
        resolve_line 15 f [''loop'' \<mapsto> 3, ''x'' \<mapsto> 18] = Inr ''LOAD   r1,r0,r15[3]'')"
proof -
  obtain f where f: "parse_line ''JUMP/Z loop\<newline>'' = Inr f"
      "groups f ''symbol'' = Some (Some ''loop'')" "groups f ''opcode'' = Some (Some ''JUMP'')"
      "groups f ''predicate'' = Some (Some ''Z'')" "groups f ''target'' = Some None"
    using parse_jump_back by (auto split: sum.splits)
  obtain g where g: "parse_line ''LOAD/Z r1,x\<newline>'' = Inr g"
      "groups g ''symbol'' = Some (Some ''x'')" "groups g ''opcode'' = Some (Some ''LOAD'')"
      "groups g ''predicate'' = Some (Some ''Z'')" "groups g ''target'' = Some (Some ''r1'')"
    using parse_load_x by (auto split: sum.splits)
  have t: "[''loop'' \<mapsto> 3, ''x'' \<mapsto> (18::int)] ''loop'' = Some 3"
      "[''loop'' \<mapsto> 3, ''x'' \<mapsto> (18::int)] ''x'' = Some 18" by simp_all
  have "resolve_line 15 f [''loop'' \<mapsto> 3, ''x'' \<mapsto> 18] = Inr ''ADD/Z  r15,r0,r15[-12]''"
    using resolve_line_text [where sym_table = "[''loop'' \<mapsto> 3, ''x'' \<mapsto> 18]"
        and s = "''loop''", OF f(2) t(1) f(3) f(4) f(5), of 15] str_int_12 by simp
  moreover have "resolve_line 15 g [''loop'' \<mapsto> 3, ''x'' \<mapsto> 18] = Inr ''LOAD   r1,r0,r15[3]''"
    using resolve_line_text [where sym_table = "[''loop'' \<mapsto> 3, ''x'' \<mapsto> 18]"
        and s = "''x''", OF g(2) t(2) g(3) g(4) g(5), of 15] str_int_12 by simp
  ultimately show ?thesis using f(1) g(1) by blast
qed



text \<open>
  C5 fails on the code. \<open>LOAD x\<close> and \<open>STORE x\<close> are symbolic lines whose symbol is in
  the table of \<open>untargeted_program\<close>, and they name no target register. \<open>resolve_line\<close>
  formats the missing target as the text \<open>None\<close>: pass 2 emits \<open>LOAD   None,r0,r15[-1]\<close>
  without a report, a text that names no target register and that \<open>parse_line\<close> rejects
  as an instruction.
\<close>

theorem resolve_line_without_target:
  "(case parse_line ''LOAD x\<newline>'' of
      Inl e \<Rightarrow> False
    | Inr f \<Rightarrow> kind f = SYMBOL \<and> groups f ''opcode'' = Some (Some ''LOAD'') \<and>
        groups f ''symbol'' = Some (Some ''x'') \<and> groups f ''target'' = Some None \<and>
        resolve_line 1 f (build_table untargeted_program) = Inr ''LOAD   None,r0,r15[-1]'') \<and>
   (case parse_line ''STORE x\<newline>'' of
      Inl e \<Rightarrow> False
    | Inr f \<Rightarrow> kind f = SYMBOL \<and> groups f ''target'' = Some None \<and>
        resolve_line 1 f (build_table untargeted_program) = Inr ''STORE   None,r0,r15[-1]'') \<and>
   build_table untargeted_program ''x'' = Some 0 \<and>
   transform_line instr_text untargeted_program (build_table untargeted_program) =
     [''x:  DATA 5'', ''LOAD   None,r0,r15[-1]''] \<and>
   tl_reports (transform_loop instr_text untargeted_program (build_table untargeted_program)) = [] \<and>
   (case parse_line ''LOAD   None,r0,r15[-1]'' of Inl e \<Rightarrow> e = SyntaxError | Inr f \<Rightarrow> False)"
proof -
  have a: "(case parse_line ''LOAD x\<newline>'' of
      Inl e \<Rightarrow> False
    | Inr f \<Rightarrow> kind f = SYMBOL \<and> groups f ''opcode'' = Some (Some ''LOAD'') \<and>
        groups f ''symbol'' = Some (Some ''x'') \<and> groups f ''target'' = Some None \<and>
        resolve_line 1 f (build_table untargeted_program) = Inr ''LOAD   None,r0,r15[-1]'')"
    by code_simp
  have b: "(case parse_line ''STORE x\<newline>'' of
      Inl e \<Rightarrow> False
    | Inr f \<Rightarrow> kind f = SYMBOL \<and> groups f ''target'' = Some None \<and>
        resolve_line 1 f (build_table untargeted_program) = Inr ''STORE   None,r0,r15[-1]'')"
    by code_simp
  have c: "build_table untargeted_program ''x'' = Some 0"
    by code_simp
  have d: "transform_line instr_text untargeted_program (build_table untargeted_program) =
     [''x:  DATA 5'', ''LOAD   None,r0,r15[-1]'']"
    by code_simp
  have e: "tl_reports (transform_loop instr_text untargeted_program
      (build_table untargeted_program)) = []"
    by code_simp
  have f: "(case parse_line ''LOAD   None,r0,r15[-1]'' of
      Inl e \<Rightarrow> e = SyntaxError | Inr f \<Rightarrow> False)"
    by code_simp
  show ?thesis using a b c d e f by (intro conjI)
qed


text \<open>
  C9. For the dict of a symbolic line that carries a predicate, \<open>resolve_line\<close> on LOAD or
  STORE returns a text without the character \<open>/\<close>, the same text as for the line without
  its predicate; on JUMP the text keeps the predicate, as \<open>ADD/predicate\<close>.
\<close>

theorem resolve_line_predicate:
  assumes "groups flds ''symbol'' = Some (Some s)" and "sym_table s = Some a"
    and "groups flds ''opcode'' = Some (Some opc)"
    and "groups flds ''predicate'' = Some (Some pred)" and "pred \<noteq> []"
    and "groups flds ''target'' = Some t" and "CHR ''/'' \<notin> set (fmt t)"
  shows "(opc = ''LOAD'' \<or> opc = ''STORE'' \<longrightarrow>
            (\<exists>text. resolve_line cur flds sym_table = Inr text \<and> CHR ''/'' \<notin> set text \<and>
               resolve_line cur (flds\<lparr>groups := (groups flds)(''predicate'' \<mapsto> None)\<rparr>) sym_table
                 = Inr text)) \<and>
         (opc = ''JUMP'' \<longrightarrow>
            resolve_line cur flds sym_table =
              Inr (''ADD/'' @ pred @ ''  r15,r0,r15['' @ str_int (a - cur) @ '']''))"
proof -
  let ?flds' = "flds\<lparr>groups := (groups flds)(''predicate'' \<mapsto> None)\<rparr>"
  have g: "groups ?flds' ''symbol'' = Some (Some s)" "groups ?flds' ''opcode'' = Some (Some opc)"
      "groups ?flds' ''predicate'' = Some None" "groups ?flds' ''target'' = Some t"
    using assms by simp_all
  have r: "resolve_line cur flds sym_table =
     Inr (if Some opc = Some ''JUMP''
          then (if truthy (Some pred)
                then ''ADD/'' @ fmt (Some pred) @ ''  r15,r0,r15['' @ str_int (a - cur) @ '']''
                else ''ADD r15,r0,r15['' @ str_int (a - cur) @ '']'')
          else fmt (Some opc) @ ''   '' @ fmt t @ '',r0,r15['' @ str_int (a - cur) @ '']'')"
    by (rule resolve_line_eq [where sym_table = sym_table and s = s, OF assms(1,2,3,4,6)])
  have r': "resolve_line cur ?flds' sym_table =
     Inr (if Some opc = Some ''JUMP''
          then (if truthy None
                then ''ADD/'' @ fmt None @ ''  r15,r0,r15['' @ str_int (a - cur) @ '']''
                else ''ADD r15,r0,r15['' @ str_int (a - cur) @ '']'')
          else fmt (Some opc) @ ''   '' @ fmt t @ '',r0,r15['' @ str_int (a - cur) @ '']'')"
    by (rule resolve_line_eq [where sym_table = sym_table and s = s, OF g(1) assms(2) g(2,3,4)])
  have ls: "opc = ''LOAD'' \<or> opc = ''STORE'' \<Longrightarrow>
      CHR ''/'' \<notin> set (opc @ ''   '' @ fmt t @ '',r0,r15['' @ str_int (a - cur) @ '']'')"
    using assms(7) str_int_no_slash [of "a - cur"] by auto
  show ?thesis using r r' ls assms(5) by auto
qed

lemma parse_store_y:
  "(case parse_line ''STORE/P r2,y\<newline>'' of
      Inl e \<Rightarrow> False
    | Inr f \<Rightarrow> kind f = SYMBOL \<and> groups f ''symbol'' = Some (Some ''y'') \<and>
        groups f ''opcode'' = Some (Some ''STORE'') \<and>
        groups f ''predicate'' = Some (Some ''P'') \<and> groups f ''target'' = Some (Some ''r2''))"
  by code_simp

lemma parse_jump_end:
  "(case parse_line ''JUMP/M done\<newline>'' of
      Inl e \<Rightarrow> False
    | Inr f \<Rightarrow> kind f = SYMBOL \<and> groups f ''symbol'' = Some (Some ''done'') \<and>
        groups f ''opcode'' = Some (Some ''JUMP'') \<and>
        groups f ''predicate'' = Some (Some ''M'') \<and> groups f ''target'' = Some None)"
  by code_simp

lemma str_int_5: "str_int 5 = ''5''" "str_int (- 2) = ''-2''"
  by code_simp+

theorem resolve_line_predicate_witness:
  "(\<exists>f. parse_line ''STORE/P r2,y\<newline>'' = Inr f \<and>
        resolve_line 4 f [''y'' \<mapsto> 9, ''done'' \<mapsto> 2] = Inr ''STORE   r2,r0,r15[5]'' \<and>
        resolve_line 4 (f\<lparr>groups := (groups f)(''predicate'' \<mapsto> None)\<rparr>)
          [''y'' \<mapsto> 9, ''done'' \<mapsto> 2] = Inr ''STORE   r2,r0,r15[5]'') \<and>
   (\<exists>f. parse_line ''JUMP/M done\<newline>'' = Inr f \<and>
        resolve_line 4 f [''y'' \<mapsto> 9, ''done'' \<mapsto> 2] = Inr ''ADD/M  r15,r0,r15[-2]'')"
proof -
  let ?tb = "[''y'' \<mapsto> 9, ''done'' \<mapsto> (2::int)]"
  obtain f where f: "parse_line ''STORE/P r2,y\<newline>'' = Inr f"
      "groups f ''symbol'' = Some (Some ''y'')" "groups f ''opcode'' = Some (Some ''STORE'')"
      "groups f ''predicate'' = Some (Some ''P'')" "groups f ''target'' = Some (Some ''r2'')"
    using parse_store_y by (auto split: sum.splits)
  obtain g where g: "parse_line ''JUMP/M done\<newline>'' = Inr g"
      "groups g ''symbol'' = Some (Some ''done'')" "groups g ''opcode'' = Some (Some ''JUMP'')"
      "groups g ''predicate'' = Some (Some ''M'')" "groups g ''target'' = Some None"
    using parse_jump_end by (auto split: sum.splits)
  have t: "?tb ''y'' = Some 9" "?tb ''done'' = Some 2" by simp_all
  have n: "''P'' \<noteq> []" "''M'' \<noteq> []" "CHR ''/'' \<notin> set (fmt (Some ''r2''))"
      "CHR ''/'' \<notin> set (fmt None)" by simp_all
  have a: "\<exists>text. resolve_line 4 f ?tb = Inr text \<and> CHR ''/'' \<notin> set text \<and>
      resolve_line 4 (f\<lparr>groups := (groups f)(''predicate'' \<mapsto> None)\<rparr>) ?tb = Inr text"
    using resolve_line_predicate [where sym_table = ?tb and s = "''y''",
        OF f(2) t(1) f(3) f(4) n(1) f(5) n(3), of 4] by simp
  have b: "resolve_line 4 f ?tb = Inr ''STORE   r2,r0,r15[5]''"
    using resolve_line_eq [where sym_table = ?tb and s = "''y''", OF f(2) t(1) f(3) f(4) f(5), of 4]
      str_int_5 by simp
  have c: "resolve_line 4 g ?tb = Inr ''ADD/M  r15,r0,r15[-2]''"
    using resolve_line_predicate [where sym_table = ?tb and s = "''done''",
        OF g(2) t(2) g(3) g(4) n(2) g(5) n(4), of 4] str_int_5 by simp
  show ?thesis using a b c f(1) g(1) by auto
qed


section \<open>Pass 1\<close>

lemma enumerate_lines_snoc:
  "enumerate_lines (lines @ [line]) = enumerate_lines lines @ [(length lines, line)]"
  by (simp add: enumerate_lines_def)

lemma build_loop_snoc:
  "build_loop (lines @ [line]) = build_body (build_loop lines) (length lines, line)"
  by (simp add: build_loop_def enumerate_lines_snoc)

lemma map_of_keys: "n \<in> set ns \<Longrightarrow> map_of (map (\<lambda>n. (n, c n)) ns) n = Some (c n)"
  by (induction ns) auto

lemma groupdict_key:
  "n \<in> set (group_names r) \<Longrightarrow> groupdict r c n = Some (c n)"
  by (simp add: groupdict_def map_of_keys)

lemma label_in_patterns:
  "''label'' \<in> set (group_names ASM_FULL_PAT)" "''label'' \<in> set (group_names ASM_DATA_PAT)"
  "''label'' \<in> set (group_names ASM_COMMENT_PAT)" "''label'' \<in> set (group_names ASM_SYMBOL_PAT)"
  by (simp_all add: ASM_FULL_PAT_def ASM_DATA_PAT_def ASM_COMMENT_PAT_def ASM_SYMBOL_PAT_def
      label_part_def)

lemma parse_line_cases:
  assumes "parse_line line = Inr flds"
  obtains c where "fullmatch ASM_FULL_PAT line = Some c"
      "flds = \<lparr>groups = groupdict ASM_FULL_PAT c, kind = FULL\<rparr>"
  | c where "fullmatch ASM_DATA_PAT line = Some c"
      "flds = \<lparr>groups = groupdict ASM_DATA_PAT c, kind = DATA\<rparr>"
  | c where "fullmatch ASM_COMMENT_PAT line = Some c"
      "flds = \<lparr>groups = groupdict ASM_COMMENT_PAT c, kind = COMMENT\<rparr>"
  | c where "fullmatch ASM_SYMBOL_PAT line = Some c"
      "flds = \<lparr>groups = groupdict ASM_SYMBOL_PAT c, kind = SYMBOL\<rparr>"
  using assms by (auto simp add: parse_line_def PATTERNS_def split: option.splits)

lemma parse_line_label_key:
  assumes "parse_line line = Inr flds"
  shows "\<exists>v. groups flds ''label'' = Some v"
  using assms by (rule parse_line_cases) (simp_all add: groupdict_key label_in_patterns)

lemma build_body_parsed:
  assumes "parse_line line = Inr flds" and "groups flds ''label'' = Some label"
  shows "bt_address (build_body st (lnum, line)) =
           bt_address st + (if kind flds = COMMENT then 0 else 1)"
    and "datadict (build_body st (lnum, line)) =
           (if truthy label then (datadict st)(the label \<mapsto> bt_address st) else datadict st)"
    and "bt_reports (build_body st (lnum, line)) = bt_reports st"
  using assms by (simp_all add: build_body_def fields_get_def Let_def)

lemma build_body_failed:
  assumes "parse_line line = Inl e"
  shows "build_body st (lnum, line) = st\<lparr>bt_reports := bt_reports st @ [handler e lnum line]\<rparr>"
  using assms by (simp add: build_body_def)


lemma build_loop_Nil: "build_loop [] = bt_start"
  by (simp add: build_loop_def enumerate_lines_def)

lemma build_snoc_parsed:
  assumes "parse_line line = Inr flds" and "groups flds ''label'' = Some label"
  shows "bt_address (build_loop (lines @ [line])) =
           bt_address (build_loop lines) + (if kind flds = COMMENT then 0 else 1)"
    and "build_table (lines @ [line]) =
           (if truthy label then (build_table lines)(the label \<mapsto> bt_address (build_loop lines))
            else build_table lines)"
  using build_body_parsed [OF assms] by (simp_all add: build_loop_snoc build_table_def)

lemma build_snoc_failed:
  assumes "parse_line line = Inl e"
  shows "bt_address (build_loop (lines @ [line])) = bt_address (build_loop lines)"
    and "build_table (lines @ [line]) = build_table lines"
  using build_body_failed [OF assms] by (simp_all add: build_loop_snoc build_table_def)

lemma bt_address_count:
  "bt_address (build_loop lines) =
     int (length (filter (\<lambda>line. case parse_line line of Inl e \<Rightarrow> False
                                  | Inr f \<Rightarrow> kind f \<noteq> COMMENT) lines))"
proof (induction lines rule: rev_induct)
  case Nil
  show ?case by (simp add: build_loop_Nil bt_start_def)
next
  case (snoc line lines)
  show ?case
  proof (cases "parse_line line")
    case (Inl e)
    then show ?thesis using snoc build_snoc_failed(1) [OF Inl, of lines] by simp
  next
    case (Inr flds)
    obtain label where l: "groups flds ''label'' = Some label"
      using parse_line_label_key [OF Inr] by blast
    show ?thesis using snoc build_snoc_parsed(1) [OF Inr l, of lines] Inr by simp
  qed
qed

text \<open>
  C6. \<open>build_table\<close> starts with the address 0 and the empty table. A line that parses
  always has the key \<open>label\<close>; when its label is set, the label is mapped to the address
  reached before the line; then the address goes up by one unless the line is of the comment
  kind. A line that does not parse changes neither the address nor the table. So the address
  after any lines is the number of the lines that parse to another kind than comment.
\<close>

theorem build_table_addresses:
  "bt_address (build_loop []) = 0 \<and> build_table [] = Map.empty \<and>
   (\<forall>line flds. parse_line line = Inr flds \<longrightarrow> (\<exists>label. groups flds ''label'' = Some label)) \<and>
   (\<forall>lines line flds label.
      parse_line line = Inr flds \<and> groups flds ''label'' = Some label \<longrightarrow>
        bt_address (build_loop (lines @ [line])) =
          bt_address (build_loop lines) + (if kind flds = COMMENT then 0 else 1) \<and>
        build_table (lines @ [line]) =
          (if truthy label
           then (build_table lines)(the label \<mapsto> bt_address (build_loop lines))
           else build_table lines)) \<and>
   (\<forall>lines line e.
      parse_line line = Inl e \<longrightarrow>
        bt_address (build_loop (lines @ [line])) = bt_address (build_loop lines) \<and>
        build_table (lines @ [line]) = build_table lines) \<and>
   (\<forall>lines.
      bt_address (build_loop lines) =
        int (length (filter (\<lambda>line. case parse_line line of Inl e \<Rightarrow> False
                                     | Inr f \<Rightarrow> kind f \<noteq> COMMENT) lines)))"
proof -
  have a: "bt_address (build_loop []) = 0" "build_table [] = Map.empty"
    by (simp_all add: build_loop_Nil build_table_def bt_start_def)
  show ?thesis
    using a parse_line_label_key build_snoc_parsed build_snoc_failed bt_address_count
    by (intro conjI allI impI) (blast | simp)+
qed

lemma parse_data_x:
  "(case parse_line ''x: DATA 5\<newline>'' of
      Inl e \<Rightarrow> False
    | Inr f \<Rightarrow> kind f = DATA \<and> groups f ''label'' = Some (Some ''x'') \<and>
        groups f ''value'' = Some (Some ''5''))"
  by code_simp

lemma parse_label_only:
  "(case parse_line ''here:   # a label on a comment line\<newline>'' of
      Inl e \<Rightarrow> False
    | Inr f \<Rightarrow> kind f = COMMENT \<and> groups f ''label'' = Some (Some ''here''))"
  by code_simp

lemma pass1_example:
  "bt_address (build_loop [''loop: ADD r1,r1,r1\<newline>'', ''# note\<newline>'']) = 1"
  "build_table [''loop: ADD r1,r1,r1\<newline>'', ''# note\<newline>''] ''loop'' = Some 0"
  by code_simp+

theorem build_table_addresses_witness:
  "build_table ([''loop: ADD r1,r1,r1\<newline>'', ''# note\<newline>''] @
       [''here:   # a label on a comment line\<newline>'']) ''here'' = Some 1 \<and>
   bt_address (build_loop ([''loop: ADD r1,r1,r1\<newline>'', ''# note\<newline>''] @
       [''here:   # a label on a comment line\<newline>''])) = 1 \<and>
   build_table ([''loop: ADD r1,r1,r1\<newline>'', ''# note\<newline>'',
       ''here:   # a label on a comment line\<newline>''] @ [''x: DATA 5\<newline>'']) ''x'' = Some 1 \<and>
   bt_address (build_loop ([''loop: ADD r1,r1,r1\<newline>'', ''# note\<newline>'',
       ''here:   # a label on a comment line\<newline>''] @ [''x: DATA 5\<newline>''])) = 2"
proof -
  let ?L = "[''loop: ADD r1,r1,r1\<newline>'', ''# note\<newline>'']"
  let ?h = "''here:   # a label on a comment line\<newline>''"
  let ?x = "''x: DATA 5\<newline>''"
  obtain f where f: "parse_line ?h = Inr f" "kind f = COMMENT"
      "groups f ''label'' = Some (Some ''here'')"
    using parse_label_only by (auto split: sum.splits)
  obtain g where g: "parse_line ?x = Inr g" "kind g = DATA"
      "groups g ''label'' = Some (Some ''x'')"
    using parse_data_x by (auto split: sum.splits)
  note T = build_table_addresses
    [THEN conjunct2, THEN conjunct2, THEN conjunct2, THEN conjunct1, rule_format]
  have s1: "bt_address (build_loop (?L @ [?h])) = bt_address (build_loop ?L) + 0"
      "build_table (?L @ [?h]) = (build_table ?L)(''here'' \<mapsto> bt_address (build_loop ?L))"
    using T [of ?h f "Some ''here''" ?L] f by simp_all
  have s2: "bt_address (build_loop ((?L @ [?h]) @ [?x])) = bt_address (build_loop (?L @ [?h])) + 1"
      "build_table ((?L @ [?h]) @ [?x])
         = (build_table (?L @ [?h]))(''x'' \<mapsto> bt_address (build_loop (?L @ [?h])))"
    using T [of ?x g "Some ''x''" "?L @ [?h]"] g by simp_all
  show ?thesis using s1 s2 pass1_example by simp
qed


section \<open>Pass 2\<close>

lemma transform_loop_snoc:
  "transform_loop instr_text (lines @ [line]) tb =
     transform_body instr_text tb (transform_loop instr_text lines tb) (length lines, line)"
  by (simp add: transform_loop_def enumerate_lines_snoc)

lemma transform_loop_Nil: "transform_loop instr_text [] tb = tl_start"
  by (simp add: transform_loop_def enumerate_lines_def)

lemma transform_loop_single:
  "transform_loop instr_text [line] tb = transform_body instr_text tb tl_start (0, line)"
  using transform_loop_snoc [of instr_text "[]" line tb] by (simp add: transform_loop_Nil)

lemma transform_body_data:
  assumes "parse_line line = Inr flds" and "kind flds = DATA"
    and "groups flds ''value'' = Some v" and "groups flds ''label'' = Some label"
  shows "transform_body instr_text tb st (lnum, line) =
     (case value_parse v of
        Inl e \<Rightarrow> st\<lparr>tl_reports := tl_reports st @ [handler e lnum line]\<rparr>
      | Inr word \<Rightarrow> st\<lparr>instructions := instructions st @ [fmt label @ '':  DATA '' @ str_int word],
                        tl_address := tl_address st + 1\<rparr>)"
  using assms by (simp add: transform_body_def fields_get_def Let_def split: sum.splits)

lemma transform_body_symbol:
  assumes "parse_line line = Inr flds" and "kind flds = SYMBOL"
  shows "transform_body instr_text tb st (lnum, line) =
     (case resolve_line (tl_address st) flds tb of
        Inl e \<Rightarrow> st\<lparr>tl_reports := tl_reports st @ [handler e lnum line]\<rparr>
      | Inr instr \<Rightarrow> st\<lparr>instructions := instructions st @ [instr],
                         tl_address := tl_address st + 1\<rparr>)"
  using assms by (simp add: transform_body_def Let_def split: sum.splits)

lemma transform_body_full:
  assumes "parse_line line = Inr flds" and "kind flds = FULL"
    and "fill_defaults flds = Inr flds'"
  shows "transform_body instr_text tb st (lnum, line) =
     (case instr_text flds' of
        Inl e \<Rightarrow> st\<lparr>tl_reports := tl_reports st @ [handler e lnum line]\<rparr>
      | Inr instr \<Rightarrow> st\<lparr>instructions := instructions st @ [instr],
                         tl_address := tl_address st + 1\<rparr>)"
  using assms by (simp add: transform_body_def Let_def split: sum.splits)

lemma transform_body_failed:
  assumes "parse_line line = Inl e"
  shows "transform_body instr_text tb st (lnum, line) =
           st\<lparr>tl_reports := tl_reports st @ [handler e lnum line]\<rparr>"
  using assms by (simp add: transform_body_def)

lemma pass1_unresolved:
  "bt_address (build_loop (take 1 unresolved_program)) = 1"
  "bt_address (build_loop unresolved_program) = 3"
  "build_table unresolved_program ''x'' = Some 1"
  "build_table unresolved_program ''nowhere'' = None"
  by code_simp+

lemma pass2_unresolved:
  "tl_address (transform_loop instr_text (take 1 unresolved_program)
      (build_table unresolved_program)) = 0"
  "tl_reports (transform_loop instr_text (take 1 unresolved_program)
      (build_table unresolved_program)) = [UnknownWordReport 0]"
  "tl_address (transform_loop instr_text unresolved_program (build_table unresolved_program)) = 2"
  "transform_line instr_text unresolved_program (build_table unresolved_program) =
     [''x:  DATA 5'', ''LOAD   r1,r0,r15[0]'']"
  by code_simp+

text \<open>
  C2 fails on the code. The first line of \<open>unresolved_program\<close> refers to a symbol that
  no line defines. Pass 1 counts the line as a word; pass 2 leaves its loop body through
  the KeyError of \<open>resolve_line\<close>, before the increment. After this one line the address
  of pass 1 is 1 and the address of pass 2 is 0, and the later reference to \<open>x\<close> (table
  address 1) is resolved from address 1 instead of 2, to the offset 0 instead of -1.
\<close>

theorem pass2_address_lags:
  "bt_address (build_loop (take 1 unresolved_program)) = 1 \<and>
   tl_address (transform_loop instr_text (take 1 unresolved_program)
      (build_table unresolved_program)) = 0 \<and>
   tl_reports (transform_loop instr_text (take 1 unresolved_program)
      (build_table unresolved_program)) = [UnknownWordReport 0] \<and>
   build_table unresolved_program ''x'' = Some 1 \<and>
   transform_line instr_text unresolved_program (build_table unresolved_program) =
     [''x:  DATA 5'', ''LOAD   r1,r0,r15[0]'']"
  using pass1_unresolved pass2_unresolved by simp

section \<open>The line BOGUS r1,r2,r3\<close>

lemma fill_defaults_eq:
  assumes "groups flds ''predicate'' = Some p" and "groups flds ''offset'' = Some off"
  shows "fill_defaults flds =
     Inr (flds\<lparr>groups :=
       (let g1 = (if p = None then (groups flds)(''predicate'' \<mapsto> Some ''ALWAYS'') else groups flds)
        in if off = None then g1(''offset'' \<mapsto> Some ''0'') else g1)\<rparr>)"
  using assms
  by (cases p; cases off) (simp_all add: fill_defaults_def INSTR_DEFAULTS_def fields_get_def)

lemma parse_bogus:
  "(case parse_line ''BOGUS r1,r2,r3'' of
      Inl e \<Rightarrow> False
    | Inr f \<Rightarrow> kind f = FULL \<and> groups f ''label'' = Some None \<and>
        groups f ''opcode'' = Some (Some ''BOGUS'') \<and> groups f ''predicate'' = Some None \<and>
        groups f ''target'' = Some (Some ''r1'') \<and> groups f ''src1'' = Some (Some ''r2'') \<and>
        groups f ''src2'' = Some (Some ''r3'') \<and> groups f ''offset'' = Some None)"
  by code_simp

text \<open>
  C8 (as amended). The line \<open>BOGUS r1,r2,r3\<close> is no syntax error: it parses as a fully
  specified instruction with the opcode \<open>BOGUS\<close>. Pass 1 reports nothing, adds nothing to
  the symbol table and counts the line as one word. Pass 2 fills the defaults and hands the
  dict to \<open>instruction_from_dict\<close>; when that raises, the exception is reported by its
  handler and the line adds nothing to the output, and when it returns, its text is the
  output.
\<close>

theorem bogus_line_parses:
  "\<exists>flds flds'.
     parse_line ''BOGUS r1,r2,r3'' = Inr flds \<and> kind flds = FULL \<and>
     groups flds ''opcode'' = Some (Some ''BOGUS'') \<and>
     fill_defaults flds = Inr flds' \<and>
     groups flds' ''opcode'' = Some (Some ''BOGUS'') \<and>
     groups flds' ''predicate'' = Some (Some ''ALWAYS'') \<and>
     groups flds' ''offset'' = Some (Some ''0'') \<and>
     build_table [''BOGUS r1,r2,r3''] = Map.empty \<and>
     bt_reports (build_loop [''BOGUS r1,r2,r3'']) = [] \<and>
     bt_address (build_loop [''BOGUS r1,r2,r3'']) = 1 \<and>
     (\<forall>instr_text tb e. instr_text flds' = Inl e \<longrightarrow>
        transform_line instr_text [''BOGUS r1,r2,r3''] tb = [] \<and>
        tl_reports (transform_loop instr_text [''BOGUS r1,r2,r3''] tb) =
          [handler e 0 ''BOGUS r1,r2,r3'']) \<and>
     (\<forall>instr_text tb text. instr_text flds' = Inr text \<longrightarrow>
        transform_line instr_text [''BOGUS r1,r2,r3''] tb = [text] \<and>
        tl_reports (transform_loop instr_text [''BOGUS r1,r2,r3''] tb) = [])"
proof -
  let ?l = "''BOGUS r1,r2,r3''"
  obtain f where f: "parse_line ?l = Inr f" "kind f = FULL" "groups f ''label'' = Some None"
      "groups f ''opcode'' = Some (Some ''BOGUS'')" "groups f ''predicate'' = Some None"
      "groups f ''offset'' = Some None"
    using parse_bogus by (auto split: sum.splits)
  define f' where "f' = f\<lparr>groups := (groups f)(''predicate'' \<mapsto> Some ''ALWAYS'',
      ''offset'' \<mapsto> Some ''0'')\<rparr>"
  have fd: "fill_defaults f = Inr f'"
    using fill_defaults_eq [OF f(5,6)] by (simp add: f'_def)
  have g: "groups f' ''opcode'' = Some (Some ''BOGUS'')"
      "groups f' ''predicate'' = Some (Some ''ALWAYS'')" "groups f' ''offset'' = Some (Some ''0'')"
    using f(4) by (simp_all add: f'_def)
  have b: "build_loop [?l] = build_body bt_start (0, ?l)"
    using build_loop_snoc [of "[]" ?l] by (simp add: build_loop_Nil)
  have p1: "build_table [?l] = Map.empty" "bt_reports (build_loop [?l]) = []"
      "bt_address (build_loop [?l]) = 1"
    using build_body_parsed [OF f(1,3), of bt_start 0] f(2)
    by (simp_all add: b build_table_def bt_start_def)
  have p2: "transform_loop instr_text [?l] tb =
     (case instr_text f' of
        Inl e \<Rightarrow> tl_start\<lparr>tl_reports := tl_reports tl_start @ [handler e 0 ?l]\<rparr>
      | Inr instr \<Rightarrow> tl_start\<lparr>instructions := instructions tl_start @ [instr],
                         tl_address := tl_address tl_start + 1\<rparr>)" for instr_text tb
    using transform_body_full [OF f(1,2) fd, of instr_text tb tl_start 0]
    by (simp add: transform_loop_single)
  have p3: "\<forall>instr_text tb e. instr_text f' = Inl e \<longrightarrow>
        transform_line instr_text [?l] tb = [] \<and>
        tl_reports (transform_loop instr_text [?l] tb) = [handler e 0 ?l]"
    by (simp add: transform_line_def p2 tl_start_def)
  have p4: "\<forall>instr_text tb text. instr_text f' = Inr text \<longrightarrow>
        transform_line instr_text [?l] tb = [text] \<and>
        tl_reports (transform_loop instr_text [?l] tb) = []"
    by (simp add: transform_line_def p2 tl_start_def)
  show ?thesis
    using f(1,2,4) fd g p1 p3 p4 by blast
qed

theorem bogus_line_parses_witness:
  "transform_line (\<lambda>f. Inl KeyError) [''BOGUS r1,r2,r3''] Map.empty = [] \<and>
   tl_reports (transform_loop (\<lambda>f. Inl KeyError) [''BOGUS r1,r2,r3''] Map.empty) =
     [UnknownWordReport 0] \<and>
   transform_line (\<lambda>f. Inr ''HALT'') [''BOGUS r1,r2,r3''] Map.empty = [''HALT'']"
proof -
  obtain flds' where
    a: "\<forall>instr_text tb e. instr_text flds' = Inl e \<longrightarrow>
        transform_line instr_text [''BOGUS r1,r2,r3''] tb = [] \<and>
        tl_reports (transform_loop instr_text [''BOGUS r1,r2,r3''] tb) =
          [handler e 0 ''BOGUS r1,r2,r3'']" and
    b: "\<forall>instr_text tb text. instr_text flds' = Inr text \<longrightarrow>
        transform_line instr_text [''BOGUS r1,r2,r3''] tb = [text] \<and>
        tl_reports (transform_loop instr_text [''BOGUS r1,r2,r3''] tb) = []"
    using bogus_line_parses by blast
  have "transform_line (\<lambda>f. Inl KeyError) [''BOGUS r1,r2,r3''] Map.empty = [] \<and>
      tl_reports (transform_loop (\<lambda>f. Inl KeyError) [''BOGUS r1,r2,r3''] Map.empty) =
        [handler KeyError 0 ''BOGUS r1,r2,r3'']"
    using a [rule_format, of "\<lambda>f. Inl KeyError" KeyError Map.empty] by simp
  moreover have "transform_line (\<lambda>f. Inr ''HALT'') [''BOGUS r1,r2,r3''] Map.empty = [''HALT'']"
    using b [rule_format, of "\<lambda>f. Inr ''HALT''" "''HALT''" Map.empty] by simp
  ultimately show ?thesis by simp
qed

text \<open>
  C8 fails as stated: parsing the line raises no SyntaxError, pass 1 reports nothing, and
  with an \<open>instruction_from_dict\<close> that raises KeyError pass 2 reports an unknown word, not
  a syntax error.
\<close>

theorem bogus_line_counterexample:
  "parse_line ''BOGUS r1,r2,r3'' \<noteq> Inl SyntaxError \<and>
   bt_reports (build_loop [''BOGUS r1,r2,r3'']) = [] \<and>
   tl_reports (transform_loop (\<lambda>f. Inl KeyError) [''BOGUS r1,r2,r3''] Map.empty) =
     [UnknownWordReport 0]"
proof -
  have "parse_line ''BOGUS r1,r2,r3'' \<noteq> Inl SyntaxError"
    using parse_bogus by (auto split: sum.splits)
  moreover have "bt_reports (build_loop [''BOGUS r1,r2,r3'']) = []" by code_simp
  moreover have "tl_reports (transform_loop (\<lambda>f. Inl KeyError) [''BOGUS r1,r2,r3''] Map.empty) =
     [UnknownWordReport 0]" by code_simp
  ultimately show ?thesis by simp
qed


section \<open>DATA lines\<close>

text \<open>
  A line that parses as a DATA line and has a value that \<open>value_parse\<close> converts is
  emitted by \<open>transform_line\<close> as the text of its label field, \<open>:  DATA\<close> and the decimal
  text of the value, and counts as one word; the label field of a line without a label is
  \<open>None\<close>, which is emitted as the text \<open>None\<close>.
\<close>

lemma data_line_with_value:
  assumes "parse_line line = Inr flds" and "kind flds = DATA"
    and "groups flds ''value'' = Some (Some v)" and "value_parse (Some v) = Inr word"
  shows "\<exists>label. groups flds ''label'' = Some label \<and>
           transform_body instr_text tb st (lnum, line) =
             st\<lparr>instructions := instructions st @ [fmt label @ '':  DATA '' @ str_int word],
                tl_address := tl_address st + 1\<rparr> \<and>
           (label = None \<longrightarrow>
              fmt label @ '':  DATA '' @ str_int word = ''None:  DATA '' @ str_int word)"
proof -
  obtain label where l: "groups flds ''label'' = Some label"
    using parse_line_label_key [OF assms(1)] by blast
  have "transform_body instr_text tb st (lnum, line) =
      st\<lparr>instructions := instructions st @ [fmt label @ '':  DATA '' @ str_int word],
         tl_address := tl_address st + 1\<rparr>"
    using transform_body_data [OF assms(1,2,3) l, of instr_text tb st lnum] assms(4) by simp
  then show ?thesis using l by auto
qed

lemma parse_data_5:
  "(case parse_line ''DATA 5'' of
      Inl e \<Rightarrow> False
    | Inr f \<Rightarrow> kind f = DATA \<and> groups f ''label'' = Some None \<and>
        groups f ''value'' = Some (Some ''5''))"
  by code_simp

lemma value_parse_5: "value_parse (Some ''5'') = Inr 5"
  by code_simp

lemma data_line_with_value_example:
  "transform_line (\<lambda>f. Inl KeyError) [''DATA 5''] Map.empty = [''None:  DATA 5'']"
proof -
  obtain f where f: "parse_line ''DATA 5'' = Inr f" "kind f = DATA"
      "groups f ''label'' = Some None" "groups f ''value'' = Some (Some ''5'')"
    using parse_data_5 by (auto split: sum.splits)
  obtain label where l: "groups f ''label'' = Some label"
      "transform_body (\<lambda>f. Inl KeyError) Map.empty tl_start (0, ''DATA 5'') =
         tl_start\<lparr>instructions := instructions tl_start @ [fmt label @ '':  DATA '' @ str_int 5],
            tl_address := tl_address tl_start + 1\<rparr>"
    using data_line_with_value [OF f(1,2,4) value_parse_5, of "\<lambda>f. Inl KeyError" Map.empty tl_start 0]
    by blast
  have "label = None" using l(1) f(3) by simp
  then show ?thesis
    using l(2) str_int_5(1) by (simp add: transform_line_def transform_loop_single tl_start_def)
qed

text \<open>
  C10 fails on the code. \<open>ASM_DATA_PAT\<close> makes the value optional and \<open>x: DATA\<close> parses
  as a DATA line; pass 1 records \<open>x\<close> and counts the line as a word. In pass 2
  \<open>value_parse(None)\<close> raises AttributeError, the handler for other exceptions reports it,
  and the line is neither emitted nor counted. A DATA line with a value is emitted in the
  form of the claim, \<open>DATA 5\<close> as \<open>None:  DATA 5\<close>.
\<close>

theorem data_line_without_value:
  "(case parse_line ''x: DATA\<newline>'' of
      Inl e \<Rightarrow> False
    | Inr f \<Rightarrow> kind f = DATA \<and> groups f ''label'' = Some (Some ''x'') \<and>
        groups f ''value'' = Some None) \<and>
   value_parse None = Inl AttributeError \<and>
   build_table [''x: DATA\<newline>''] ''x'' = Some 0 \<and>
   bt_address (build_loop [''x: DATA\<newline>'']) = 1 \<and>
   bt_reports (build_loop [''x: DATA\<newline>'']) = [] \<and>
   transform_line instr_text [''x: DATA\<newline>''] tb = [] \<and>
   tl_address (transform_loop instr_text [''x: DATA\<newline>''] tb) = 0 \<and>
   tl_reports (transform_loop instr_text [''x: DATA\<newline>''] tb) = [ExceptionReport 0] \<and>
   transform_line instr_text [''DATA 5''] tb = [''None:  DATA 5'']"
proof -
  have a: "(case parse_line ''x: DATA\<newline>'' of
      Inl e \<Rightarrow> False
    | Inr f \<Rightarrow> kind f = DATA \<and> groups f ''label'' = Some (Some ''x'') \<and>
        groups f ''value'' = Some None)"
    by code_simp
  have b: "value_parse None = Inl AttributeError"
    by (simp add: value_parse_def)
  have c: "build_table [''x: DATA\<newline>''] ''x'' = Some 0"
      "bt_address (build_loop [''x: DATA\<newline>'']) = 1"
      "bt_reports (build_loop [''x: DATA\<newline>'']) = []"
    by code_simp+
  have d: "transform_line instr_text [''x: DATA\<newline>''] tb = []"
      "tl_address (transform_loop instr_text [''x: DATA\<newline>''] tb) = 0"
      "tl_reports (transform_loop instr_text [''x: DATA\<newline>''] tb) = [ExceptionReport 0]"
    by code_simp+
  have e: "transform_line instr_text [''DATA 5''] tb = [''None:  DATA 5'']"
    by code_simp
  show ?thesis using a b c d e by (intro conjI)
qed

end
